theory Spec2Isabelle
  imports Main
begin

section \<open>Data model of the service worker\<close>

text \<open>
  The worker (\<^verbatim>\<open>src/pwa/sw.js\<close>) is modelled by explicit state passing: every
  function takes the \<open>world\<close> (cache storage, the two IndexedDB object stores, the log
  of network calls, the notifications shown, the lines written by \<^verbatim>\<open>console.error\<close>)
  and returns its result together with the new world. A rejected promise or a thrown
  exception is the \<open>Inl\<close> side of a sum. What the platform does is written out where the
  code depends on it: which responses \<^verbatim>\<open>Cache.put\<close> refuses, what \<^verbatim>\<open>await\<close> yields for
  an IndexedDB request, where an unhandled rejection goes. \<^verbatim>\<open>console.log\<close> lines are left
  out.
\<close>

datatype json = JNull | JBool bool | JNum int | JStr string
  | JArr "json list" | JObj "(string \<times> json) list"

text \<open>A body is a text, or the text \<^verbatim>\<open>JSON.stringify(v)\<close> kept as the value \<open>v\<close>.\<close>

datatype body = Text string | JSON_stringify json

datatype js_error = TypeError string | Error string | DOMException string

text \<open>Header names are kept lower-cased, as a \<^verbatim>\<open>Headers\<close> object keeps them.\<close>

record response =
  status :: nat
  statusText :: string
  headers :: "(string \<times> string) list"
  body :: body

record request =
  url :: string
  req_method :: string
  destination :: string
  req_headers :: "(string \<times> string) list"
  req_body :: "body option"

text \<open>\<^verbatim>\<open>response.ok\<close>: the status is in the range 200..299.\<close>

definition ok :: "response \<Rightarrow> bool" where
  "ok r \<longleftrightarrow> 200 \<le> status r \<and> status r \<le> 299"

definition headers_get :: "response \<Rightarrow> string \<Rightarrow> string option" where
  "headers_get r name = map_of (headers r) name"

text \<open>
  \<^verbatim>\<open>new Response(body, {status, statusText, headers})\<close>; a caller that leaves a
  field of the init object out passes the constructor's default (status 200, empty
  status text, no headers). Every body the worker passes is a string: when the init
  headers name no content type, the constructor adds that of a string body.
\<close>

definition new_Response :: "body \<Rightarrow> nat \<Rightarrow> string \<Rightarrow> (string \<times> string) list \<Rightarrow> response" where
  "new_Response b s t hs =
     \<lparr>status = s, statusText = t,
      headers = (case map_of hs ''content-type'' of
                   None \<Rightarrow> hs @ [(''content-type'', ''text/plain;charset=UTF-8'')]
                 | Some v \<Rightarrow> hs),
      body = b\<rparr>"

text \<open>A request made from a URL alone, as \<^verbatim>\<open>cache.addAll\<close> and \<^verbatim>\<open>cache.put\<close> make one
  from a string: a GET.\<close>

definition get_request :: "string \<Rightarrow> request" where
  "get_request u = \<lparr>url = u, req_method = ''GET'', destination = [], req_headers = [], req_body = None\<rparr>"

subsection \<open>Caches\<close>

text \<open>
  A cache is the list of its entries, keyed by request URL, in insertion order (the
  order \<^verbatim>\<open>cache.keys()\<close> lists them); \<^verbatim>\<open>cache.put\<close> replaces the entry of its key.
  Cache storage maps a cache name to the cache, \<open>None\<close> while it does not exist.
\<close>

type_synonym cache = "(string \<times> response) list"

type_synonym cache_storage = "string \<Rightarrow> cache option"

definition cache_match :: "cache \<Rightarrow> string \<Rightarrow> response option" where
  "cache_match c k = map_of c k"

definition cache_delete :: "string \<Rightarrow> cache \<Rightarrow> cache" where
  "cache_delete k c = filter (\<lambda>e. fst e \<noteq> k) c"

definition cache_put :: "string \<Rightarrow> response \<Rightarrow> cache \<Rightarrow> cache" where
  "cache_put k r c = cache_delete k c @ [(k, r)]"

definition cache_keys :: "cache \<Rightarrow> string list" where
  "cache_keys c = map fst c"

definition caches_open :: "string \<Rightarrow> cache_storage \<Rightarrow> cache_storage" where
  "caches_open name cs = (case cs name of None \<Rightarrow> cs(name \<mapsto> []) | Some c \<Rightarrow> cs)"

definition the_cache :: "cache_storage \<Rightarrow> string \<Rightarrow> cache" where
  "the_cache cs name = (case cs name of None \<Rightarrow> [] | Some c \<Rightarrow> c)"

definition CACHE_NAME :: string where
  "CACHE_NAME = ''sh-formu-pwa-v2.0.0''"

definition OFFLINE_URL :: string where
  "OFFLINE_URL = ''/offline.html''"

definition CORE_CACHE_FILES :: "string list" where
  "CORE_CACHE_FILES = [''/'', ''/index.html'', ''/manifest.json'', ''/offline.html'']"

definition DATA_CACHE_NAME :: string where
  "DATA_CACHE_NAME = ''sh-formu-data-v1''"

subsection \<open>The durable store and the world\<close>

text \<open>
  A record of the \<^verbatim>\<open>pending-forms\<close> store, as \<^verbatim>\<open>storeFormOffline\<close> builds it. The
  store's key path is \<^verbatim>\<open>id\<close>: the store is the list of its records in ascending key
  order, the order of the result of \<^verbatim>\<open>getAll()\<close>.
\<close>

record form =
  form_id :: string
  form_data :: json
  form_timestamp :: int
  form_status :: string

record completed =
  completed_id :: string
  completed_data :: json
  completed_timestamp :: int
  completed_formType :: string

record notification =
  n_title :: string
  n_body :: string
  n_icon :: string
  n_badge :: string
  n_tag :: string
  n_vibrate :: "nat list"

text \<open>
  A database that was never opened is two empty stores: \<^verbatim>\<open>openDB\<close>'s upgrade handler
  creates both of them empty. \<open>idb_error\<close> is the error \<^verbatim>\<open>indexedDB.open\<close> fails with,
  when it does. \<open>sync_supported\<close> is what the test for background sync in
  \<^verbatim>\<open>storeFormOffline\<close> and the registration after it come to: the test is true and the
  registration is made, the test is false, or one of them throws.
\<close>

record world =
  caches :: cache_storage
  pending_forms :: "form list"
  completed_forms :: "completed list"
  idb_error :: "js_error option"
  fetch_log :: "request list"
  notifications :: "notification list"
  console_errors :: "string list"
  skipWaiting_called :: bool
  sync_supported :: "js_error + bool"
  sync_registrations :: "string list"

text \<open>
  The network answers a request with a response or fails (the promise of \<^verbatim>\<open>fetch\<close>
  rejects); its answer may depend on the requests made before. Every call is logged.
\<close>

type_synonym network = "request list \<Rightarrow> request \<Rightarrow> js_error + response"

definition fetch :: "network \<Rightarrow> request \<Rightarrow> world \<Rightarrow> (js_error + response) \<times> world" where
  "fetch net rq w = (net (fetch_log w) rq, w\<lparr>fetch_log := fetch_log w @ [rq]\<rparr>)"

definition console_error :: "string \<Rightarrow> world \<Rightarrow> world" where
  "console_error msg w = w\<lparr>console_errors := console_errors w @ [msg]\<rparr>"

text \<open>The write of an entry into a named cache.\<close>

definition store_in :: "string \<Rightarrow> string \<Rightarrow> response \<Rightarrow> world \<Rightarrow> world" where
  "store_in name k r w = w\<lparr>caches := (caches w)(name \<mapsto> cache_put k r (the_cache (caches w) name))\<rparr>"

text \<open>
  The values of a \<open>vary\<close> header: the parts between commas, without the blanks
  around them.
\<close>

fun split_on :: "char \<Rightarrow> string \<Rightarrow> string list" where
  "split_on c [] = [[]]"
| "split_on c (x # xs) =
     (if x = c then [] # split_on c xs
      else (case split_on c xs of [] \<Rightarrow> [[x]] | p # ps \<Rightarrow> (x # p) # ps))"

definition blank :: "char \<Rightarrow> bool" where
  "blank c \<longleftrightarrow> c = CHR '' '' \<or> c = CHR 0x09"

definition strip :: "string \<Rightarrow> string" where
  "strip s = rev (dropWhile blank (rev (dropWhile blank s)))"

definition vary_star :: "response \<Rightarrow> bool" where
  "vary_star r =
     (case headers_get r ''vary'' of
        None \<Rightarrow> False
      | Some v \<Rightarrow> ''*'' \<in> set (map strip (split_on CHR '','' v)))"

text \<open>
  \<^verbatim>\<open>Cache.put\<close> refuses a request that is not a GET, a response with status 206 and a
  response whose \<open>vary\<close> header lists \<open>*\<close>: its promise rejects with a TypeError and
  nothing is stored. (The URLs of the model are those of the worker's own origin, so the
  scheme is always one the cache takes.)
\<close>

definition cache_accepts :: "request \<Rightarrow> response \<Rightarrow> bool" where
  "cache_accepts rq r \<longleftrightarrow> req_method rq = ''GET'' \<and> status r \<noteq> 206 \<and> \<not> vary_star r"

definition cache_put_p :: "string \<Rightarrow> request \<Rightarrow> response \<Rightarrow> world \<Rightarrow> (js_error + unit) \<times> world" where
  "cache_put_p name rq r w =
     (if cache_accepts rq r then (Inr (), store_in name (url rq) r w)
      else (Inl (TypeError ''Cache.put refused''), w))"

text \<open>
  \<^verbatim>\<open>cache.put(request, response)\<close> as the strategies call it, without \<^verbatim>\<open>await\<close>: a
  rejection goes to the worker's \<^verbatim>\<open>unhandledrejection\<close> listener, which logs it.
\<close>

definition put_in :: "string \<Rightarrow> request \<Rightarrow> response \<Rightarrow> world \<Rightarrow> world" where
  "put_in name rq r w =
     (case cache_put_p name rq r w of
        (Inr u, w') \<Rightarrow> w'
      | (Inl e, w') \<Rightarrow> console_error ''Unhandled rejection in Service Worker:'' w')"

definition open_cache :: "string \<Rightarrow> world \<Rightarrow> world" where
  "open_cache name w = w\<lparr>caches := caches_open name (caches w)\<rparr>"

section \<open>The three strategies\<close>

text \<open>The message of the 503 body, in UTF-8 bytes.\<close>

definition offline_message :: string where
  "offline_message = ''Bu i'' @ [CHR 0xC5, CHR 0x9F] @ ''lem i'' @ [CHR 0xC3, CHR 0xA7]
     @ ''in internet ba'' @ [CHR 0xC4, CHR 0x9F] @ ''lant'' @ [CHR 0xC4, CHR 0xB1] @ ''s''
     @ [CHR 0xC4, CHR 0xB1] @ '' gereklidir.''"

definition offline_response :: response where
  "offline_response =
     new_Response
       (JSON_stringify (JObj [(''error'', JStr ''Offline''), (''message'', JStr offline_message)]))
       503 ''Service Unavailable'' [(''content-type'', ''application/json'')]"

definition networkFirstStrategy :: "network \<Rightarrow> request \<Rightarrow> world \<Rightarrow> response \<times> world" where
  "networkFirstStrategy net rq w =
     (let w1 = open_cache DATA_CACHE_NAME w;
          (r, w2) = fetch net rq w1
      in case r of
           Inr networkResponse \<Rightarrow>
             (networkResponse,
              if ok networkResponse then put_in DATA_CACHE_NAME rq networkResponse w2
              else w2)
         | Inl error \<Rightarrow>
             (case cache_match (the_cache (caches w2) DATA_CACHE_NAME) (url rq) of
                Some cachedResponse \<Rightarrow> (cachedResponse, w2)
              | None \<Rightarrow> (offline_response, w2)))"

text \<open>
  The values the last line of \<^verbatim>\<open>documentStrategy\<close> handles: \<^verbatim>\<open>undefined\<close>, a
  response, and a promise of one of them. \<^verbatim>\<open>a || b\<close> is \<open>a\<close> when \<open>a\<close> is truthy,
  and every object is truthy, a promise too. An async function that returns a promise
  resolves to what the promise resolves to.
\<close>

datatype jsval = Undefined | Resp response | Promise jsval

fun truthy :: "jsval \<Rightarrow> bool" where
  "truthy Undefined = False"
| "truthy (Resp r) = True"
| "truthy (Promise p) = True"

definition js_or :: "jsval \<Rightarrow> jsval \<Rightarrow> jsval" where
  "js_or a b = (if truthy a then a else b)"

fun resolve :: "jsval \<Rightarrow> jsval" where
  "resolve (Promise p) = resolve p"
| "resolve Undefined = Undefined"
| "resolve (Resp r) = Resp r"

definition match_promise :: "cache \<Rightarrow> string \<Rightarrow> jsval" where
  "match_promise c k = Promise (case cache_match c k of None \<Rightarrow> Undefined | Some r \<Rightarrow> Resp r)"

text \<open>
  The catch arm of \<^verbatim>\<open>documentStrategy\<close>. The text of \<^verbatim>\<open>getOfflineHTML()\<close> is the
  parameter \<open>offlineHTML\<close>.
\<close>

definition documentStrategy_catch :: "string \<Rightarrow> request \<Rightarrow> world \<Rightarrow> jsval \<times> world" where
  "documentStrategy_catch offlineHTML rq w =
     (case cache_match (the_cache (caches w) CACHE_NAME) (url rq) of
        Some cachedResponse \<Rightarrow> (Resp cachedResponse, w)
      | None \<Rightarrow>
          (resolve
             (js_or (match_promise (the_cache (caches w) CACHE_NAME) OFFLINE_URL)
                (Resp (new_Response (Text offlineHTML) 200 [] [(''content-type'', ''text/html'')]))),
           w))"

definition documentStrategy :: "string \<Rightarrow> network \<Rightarrow> request \<Rightarrow> world \<Rightarrow> jsval \<times> world" where
  "documentStrategy offlineHTML net rq w =
     (let w1 = open_cache CACHE_NAME w;
          (r, w2) = fetch net rq w1
      in case r of
           Inr networkResponse \<Rightarrow>
             if ok networkResponse
             then (Resp networkResponse, put_in CACHE_NAME rq networkResponse w2)
             else documentStrategy_catch offlineHTML rq w2
         | Inl error \<Rightarrow> documentStrategy_catch offlineHTML rq w2)"

definition cacheFirstStrategy :: "network \<Rightarrow> request \<Rightarrow> world \<Rightarrow> response \<times> world" where
  "cacheFirstStrategy net rq w =
     (let w1 = open_cache CACHE_NAME w
      in case cache_match (the_cache (caches w1) CACHE_NAME) (url rq) of
           Some cachedResponse \<Rightarrow> (cachedResponse, w1)
         | None \<Rightarrow>
             (let (r, w2) = fetch net rq w1
              in case r of
                   Inr networkResponse \<Rightarrow>
                     (networkResponse,
                      if ok networkResponse then put_in CACHE_NAME rq networkResponse w2
                      else w2)
                 | Inl error \<Rightarrow> (new_Response (Text []) 404 ''Not Found'' [], w2)))"

subsection \<open>The fetch listener\<close>

fun includes_str :: "string \<Rightarrow> string \<Rightarrow> bool" where
  "includes_str [] p = (p = [])"
| "includes_str (c # cs) p = (take (length p) (c # cs) = p \<or> includes_str cs p)"

text \<open>\<open>None\<close>: the listener returns without calling \<^verbatim>\<open>respondWith\<close>.\<close>

definition fetch_listener :: "string \<Rightarrow> network \<Rightarrow> request \<Rightarrow> world \<Rightarrow> (jsval \<times> world) option" where
  "fetch_listener offlineHTML net rq w =
     (if req_method rq \<noteq> ''GET'' then None
      else if includes_str (url rq) ''/api/'' \<or> includes_str (url rq) ''form-data''
      then (case networkFirstStrategy net rq w of (r, w') \<Rightarrow> Some (Resp r, w'))
      else if destination rq = ''document''
      then Some (documentStrategy offlineHTML net rq w)
      else (case cacheFirstStrategy net rq w of (r, w') \<Rightarrow> Some (Resp r, w')))"

section \<open>Install\<close>

text \<open>
  A promise chain: \<open>then_p\<close> runs the next step on a fulfilled promise and passes a
  rejection on; \<open>catch_p\<close> runs the handler on a rejection, and the chain is fulfilled
  with what the handler returns.
\<close>

definition then_p ::
  "(js_error + 'a) \<times> world \<Rightarrow> ('a \<Rightarrow> world \<Rightarrow> (js_error + 'b) \<times> world) \<Rightarrow> (js_error + 'b) \<times> world" where
  "then_p p f = (case p of (Inl e, w) \<Rightarrow> (Inl e, w) | (Inr v, w) \<Rightarrow> f v w)"

definition catch_p ::
  "(js_error + 'a) \<times> world \<Rightarrow> (js_error \<Rightarrow> world \<Rightarrow> (js_error + 'a) \<times> world) \<Rightarrow> (js_error + 'a) \<times> world" where
  "catch_p p h = (case p of (Inl e, w) \<Rightarrow> h e w | (Inr v, w) \<Rightarrow> (Inr v, w))"

fun fetch_each :: "network \<Rightarrow> string list \<Rightarrow> world \<Rightarrow> (js_error + response) list \<times> world" where
  "fetch_each net [] w = ([], w)"
| "fetch_each net (u # us) w =
     (let (r, w1) = fetch net (get_request u) w;
          (rs, w2) = fetch_each net us w1
      in (r # rs, w2))"

text \<open>
  \<^verbatim>\<open>cache.addAll(urls)\<close> fetches every URL and stores the responses when every one
  arrived with an ok status other than 206 and without \<open>*\<close> in its \<open>vary\<close> header;
  otherwise it rejects and stores nothing.
\<close>

definition fetched_ok :: "js_error + response \<Rightarrow> bool" where
  "fetched_ok r =
     (case r of
        Inl e \<Rightarrow> False
      | Inr resp \<Rightarrow> ok resp \<and> status resp \<noteq> 206 \<and> \<not> vary_star resp)"

fun put_each :: "string \<Rightarrow> string list \<Rightarrow> (js_error + response) list \<Rightarrow> world \<Rightarrow> world" where
  "put_each name (u # us) (Inr r # rs) w = put_each name us rs (store_in name u r w)"
| "put_each name us rs w = w"

definition cache_addAll :: "network \<Rightarrow> string list \<Rightarrow> string \<Rightarrow> world \<Rightarrow> (js_error + unit) \<times> world" where
  "cache_addAll net urls name w =
     (let (rs, w1) = fetch_each net urls w
      in if list_all fetched_ok rs then (Inr (), put_each name urls rs w1)
         else (Inl (TypeError ''Request failed''), w1))"

definition caches_open_p :: "string \<Rightarrow> world \<Rightarrow> (js_error + string) \<times> world" where
  "caches_open_p name w = (Inr name, open_cache name w)"

definition skipWaiting :: "world \<Rightarrow> (js_error + unit) \<times> world" where
  "skipWaiting w = (Inr (), w\<lparr>skipWaiting_called := True\<rparr>)"

text \<open>The result is the settled promise the listener hands to \<^verbatim>\<open>event.waitUntil\<close>.\<close>

definition install_listener :: "network \<Rightarrow> world \<Rightarrow> (js_error + unit) \<times> world" where
  "install_listener net w =
     catch_p
       (then_p
          (then_p (caches_open_p CACHE_NAME w) (cache_addAll net CORE_CACHE_FILES))
          (\<lambda>u. skipWaiting))
       (\<lambda>error w'. (Inr (), console_error ''Failed to cache core files:'' w'))"

section \<open>The durable store\<close>

text \<open>Keys are compared as IndexedDB compares strings: code unit by code unit.\<close>

fun key_less :: "string \<Rightarrow> string \<Rightarrow> bool" where
  "key_less [] [] = False"
| "key_less [] (y # ys) = True"
| "key_less (x # xs) [] = False"
| "key_less (x # xs) (y # ys) =
     ((of_char x :: nat) < of_char y \<or> (x = y \<and> key_less xs ys))"

fun store_insert :: "form \<Rightarrow> form list \<Rightarrow> form list" where
  "store_insert r [] = [r]"
| "store_insert r (x # xs) =
     (if key_less (form_id r) (form_id x) then r # x # xs else x # store_insert r xs)"

text \<open>
  \<^verbatim>\<open>store.add(record)\<close> returns its request at once and throws nothing. The record is
  in the store when the transaction is done, unless its key was there already: then the
  request fails later with a ConstraintError event, which the code does not listen to,
  and the store stays as it was.
\<close>

definition store_add :: "form \<Rightarrow> form list \<Rightarrow> form list" where
  "store_add r s = (if form_id r \<in> set (map form_id s) then s else store_insert r s)"

text \<open>
  \<^verbatim>\<open>store.getAll()\<close> returns an IDBRequest. The records are its result, handed later to
  an \<^verbatim>\<open>onsuccess\<close> handler, and the code sets none. An IDBRequest is no thenable, so
  \<^verbatim>\<open>await\<close> yields the request itself; it is not iterable, so \<^verbatim>\<open>for ... of\<close> over it
  throws a TypeError. An array is iterated item by item.
\<close>

datatype store_value = IDBRequest "form list" | Array "form list"

definition store_getAll :: "form list \<Rightarrow> store_value" where
  "store_getAll s = IDBRequest s"

definition await_value :: "store_value \<Rightarrow> store_value" where
  "await_value v = v"

fun for_of_items :: "store_value \<Rightarrow> js_error + form list" where
  "for_of_items (Array items) = Inr items"
| "for_of_items (IDBRequest s) = Inl (TypeError ''pendingForms is not iterable'')"

text \<open>\<^verbatim>\<open>store.delete(key)\<close> succeeds whether or not the key is in the store.\<close>

definition store_delete :: "string \<Rightarrow> form list \<Rightarrow> form list" where
  "store_delete k s = filter (\<lambda>r. form_id r \<noteq> k) s"

definition openDB :: "world \<Rightarrow> js_error + unit" where
  "openDB w = (case idb_error w of Some e \<Rightarrow> Inl e | None \<Rightarrow> Inr ())"

text \<open>
  The decimal digits of a number, as a template literal prints it; \<open>digit_char\<close> is
  applied to digits below ten only.
\<close>

definition digit_char :: "nat \<Rightarrow> char" where
  "digit_char d = ''0123456789'' ! d"

fun decimal :: "nat \<Rightarrow> string" where
  "decimal n = (if 10 \<le> n then decimal (n div 10) @ [digit_char (n mod 10)] else [digit_char n])"

definition show_number :: "int \<Rightarrow> string" where
  "show_number i = (if 0 \<le> i then decimal (nat i) else CHR ''-'' # decimal (nat (- i)))"

text \<open>
  \<^verbatim>\<open>storeFormOffline\<close>: \<open>now1\<close> and \<open>now2\<close> are the two readings of \<^verbatim>\<open>Date.now()\<close>
  (for the id, then for the timestamp), \<open>rnd\<close> is the random suffix. The \<^verbatim>\<open>catch\<close>
  logs an error and throws it again; the record was stored before.
\<close>

definition storeFormOffline :: "int \<Rightarrow> string \<Rightarrow> int \<Rightarrow> json \<Rightarrow> world \<Rightarrow> (js_error + string) \<times> world" where
  "storeFormOffline now1 rnd now2 formData w =
     (case openDB w of
        Inl error \<Rightarrow> (Inl error, console_error ''Failed to store form offline:'' w)
      | Inr u \<Rightarrow>
          (let data = \<lparr>form_id = ''form-'' @ show_number now1 @ ''-'' @ rnd,
                       form_data = formData, form_timestamp = now2, form_status = ''pending''\<rparr>;
               w1 = w\<lparr>pending_forms := store_add data (pending_forms w)\<rparr>
           in case sync_supported w1 of
                Inl error \<Rightarrow> (Inl error, console_error ''Failed to store form offline:'' w1)
              | Inr supported \<Rightarrow>
                  (Inr (form_id data),
                   (if supported
                    then w1\<lparr>sync_registrations := sync_registrations w1 @ [''form-submission'']\<rparr>
                    else w1))))"

section \<open>The sync coordinator\<close>

definition submit_request :: "json \<Rightarrow> request" where
  "submit_request d =
     \<lparr>url = ''/api/submit-form'', req_method = ''POST'', destination = [],
      req_headers = [(''content-type'', ''application/json'')],
      req_body = Some (JSON_stringify d)\<rparr>"

definition success_notification :: notification where
  "success_notification =
     \<lparr>n_title = ''Form G'' @ [CHR 0xC3, CHR 0xB6] @ ''nderildi'',
      n_body = ''Kaydedilen formunuz ba'' @ [CHR 0xC5, CHR 0x9F] @ ''ar'' @ [CHR 0xC4, CHR 0xB1]
        @ ''yla g'' @ [CHR 0xC3, CHR 0xB6] @ ''nderildi.'',
      n_icon = ''/icon-192.png'', n_badge = ''/badge-72.png'',
      n_tag = ''form-sync-success'', n_vibrate = [200, 100, 200]\<rparr>"

definition showNotification :: "notification \<Rightarrow> world \<Rightarrow> world" where
  "showNotification n w = w\<lparr>notifications := notifications w @ [n]\<rparr>"

text \<open>The body of the loop of \<^verbatim>\<open>syncFormSubmissions\<close>, for one record of the snapshot.\<close>

definition sync_form :: "network \<Rightarrow> form \<Rightarrow> world \<Rightarrow> world" where
  "sync_form net formData w =
     (let (r, w1) = fetch net (submit_request (form_data formData)) w
      in case r of
           Inl error \<Rightarrow> console_error ''Failed to sync form:'' w1
         | Inr response \<Rightarrow>
             if ok response
             then showNotification success_notification
                    (w1\<lparr>pending_forms := store_delete (form_id formData) (pending_forms w1)\<rparr>)
             else w1)"

fun sync_loop :: "network \<Rightarrow> form list \<Rightarrow> world \<Rightarrow> world" where
  "sync_loop net [] w = w"
| "sync_loop net (formData # rest) w = sync_loop net rest (sync_form net formData w)"

text \<open>
  \<^verbatim>\<open>syncFormSubmissions\<close>: the outer \<^verbatim>\<open>catch\<close> takes the error of \<^verbatim>\<open>openDB\<close> and the
  error thrown where the loop starts.
\<close>

definition syncFormSubmissions :: "network \<Rightarrow> world \<Rightarrow> world" where
  "syncFormSubmissions net w =
     (case openDB w of
        Inl error \<Rightarrow> console_error ''Background sync failed:'' w
      | Inr u \<Rightarrow>
          (let pendingForms = await_value (store_getAll (pending_forms w))
           in case for_of_items pendingForms of
                Inl error \<Rightarrow> console_error ''Background sync failed:'' w
              | Inr items \<Rightarrow> sync_loop net items w))"

section \<open>The command channel and the periodic cleanup\<close>

text \<open>
  \<^verbatim>\<open>cacheFormData\<close>: \<open>now\<close> is \<^verbatim>\<open>Date.now()\<close>, \<open>rnd\<close> the random suffix of the key.
  The response is built with no init object. The put is awaited inside the \<^verbatim>\<open>try\<close>.
  The key is kept as the string the code passes (the cache reads it as a URL relative to
  the worker's location).
\<close>

definition cacheFormData :: "int \<Rightarrow> string \<Rightarrow> json \<Rightarrow> world \<Rightarrow> world" where
  "cacheFormData now rnd formData w =
     (let w1 = open_cache DATA_CACHE_NAME w;
          response = new_Response (JSON_stringify formData) 200 [] [];
          key = ''form-'' @ show_number now @ ''-'' @ rnd
      in case cache_put_p DATA_CACHE_NAME (get_request key) response w1 of
           (Inr u, w2) \<Rightarrow> w2
         | (Inl error, w2) \<Rightarrow> console_error ''Failed to cache form data:'' w2)"

definition maxAge :: int where
  "maxAge = 7 * 24 * 60 * 60 * 1000"

text \<open>
  One round of the loop of \<^verbatim>\<open>cleanupOldCache\<close>. \<open>parse\<close> is
  \<^verbatim>\<open>new Date(s).getTime()\<close>, \<open>None\<close> for NaN; every comparison with NaN is false.
  An empty header value is falsy. Reading the headers of a missing response throws.
\<close>

definition cleanup_entry :: "(string \<Rightarrow> int option) \<Rightarrow> int \<Rightarrow> string \<Rightarrow> cache \<Rightarrow> js_error + cache" where
  "cleanup_entry parse now k c =
     (case cache_match c k of
        None \<Rightarrow> Inl (TypeError ''response is undefined'')
      | Some response \<Rightarrow>
          (case headers_get response ''date'' of
             None \<Rightarrow> Inr c
           | Some dateHeader \<Rightarrow>
               if dateHeader = [] then Inr c
               else (case parse dateHeader of
                       None \<Rightarrow> Inr c
                     | Some cacheDate \<Rightarrow>
                         if now - cacheDate > maxAge then Inr (cache_delete k c) else Inr c)))"

fun cleanup_loop :: "(string \<Rightarrow> int option) \<Rightarrow> int \<Rightarrow> string list \<Rightarrow> cache \<Rightarrow> js_error option \<times> cache" where
  "cleanup_loop parse now [] c = (None, c)"
| "cleanup_loop parse now (k # ks) c =
     (case cleanup_entry parse now k c of
        Inl error \<Rightarrow> (Some error, c)
      | Inr c' \<Rightarrow> cleanup_loop parse now ks c')"

definition cleanupOldCache :: "(string \<Rightarrow> int option) \<Rightarrow> int \<Rightarrow> world \<Rightarrow> world" where
  "cleanupOldCache parse now w =
     (let w1 = open_cache DATA_CACHE_NAME w;
          cache = the_cache (caches w1) DATA_CACHE_NAME;
          (err, cache') = cleanup_loop parse now (cache_keys cache) cache;
          w2 = w1\<lparr>caches := (caches w1)(DATA_CACHE_NAME \<mapsto> cache')\<rparr>
      in case err of
           None \<Rightarrow> w2
         | Some error \<Rightarrow> console_error ''Cache cleanup failed:'' w2)"

section \<open>Notions used to state the properties\<close>

text \<open>
  The condition under which \<^verbatim>\<open>cleanupOldCache\<close> deletes an entry, read off its response.
\<close>

definition stale :: "(string \<Rightarrow> int option) \<Rightarrow> int \<Rightarrow> response \<Rightarrow> bool" where
  "stale parse now r =
     (case headers_get r ''date'' of
        None \<Rightarrow> False
      | Some d \<Rightarrow> d \<noteq> [] \<and> (case parse d of None \<Rightarrow> False | Some t \<Rightarrow> now - t > maxAge))"

section \<open>Concrete worlds, requests and networks\<close>

text \<open>The inputs at which the theorems below are evaluated.\<close>

text \<open>A worker that has stored nothing yet, and two networks.\<close>

definition w_fresh :: world where
  "w_fresh = \<lparr>caches = Map.empty, pending_forms = [], completed_forms = [], idb_error = None,
     fetch_log = [], notifications = [], console_errors = [], skipWaiting_called = False,
     sync_supported = Inr True, sync_registrations = []\<rparr>"

definition net_down :: network where
  "net_down log rq = Inl (TypeError ''Failed to fetch'')"

definition net_serving :: "response \<Rightarrow> network" where
  "net_serving r log rq = Inr r"






definition rq_api :: request where
  "rq_api = \<lparr>url = ''/api/forms'', req_method = ''GET'', destination = [],
     req_headers = [], req_body = None\<rparr>"

definition api_cached :: response where
  "api_cached = \<lparr>status = 200, statusText = ''OK'',
     headers = [(''content-type'', ''application/json'')], body = Text ''[1,2]''\<rparr>"

definition api_500 :: response where
  "api_500 = \<lparr>status = 500, statusText = ''Internal Server Error'',
     headers = [], body = Text ''oops''\<rparr>"

definition w_api :: world where
  "w_api = store_in DATA_CACHE_NAME ''/api/forms'' api_cached w_fresh"

definition rq_page :: request where
  "rq_page = \<lparr>url = ''/form'', req_method = ''GET'', destination = ''document'',
     req_headers = [], req_body = None\<rparr>"

text \<open>
  Two forms stored offline within the same millisecond, and the worlds after the first
  and after the second call of \<^verbatim>\<open>storeFormOffline\<close>.
\<close>

definition payloadA :: json where
  "payloadA = JObj [(''name'', JStr ''Ay''), (''household'', JNum 4)]"

definition payloadB :: json where
  "payloadB = JObj [(''name'', JStr ''Bo''), (''household'', JNum 2)]"

definition ack_201 :: response where
  "ack_201 = \<lparr>status = 201, statusText = ''Created'', headers = [], body = Text []\<rparr>"

definition formA :: form where
  "formA = \<lparr>form_id = ''form-1700000000000-b7k3x9q0z'', form_data = payloadA,
     form_timestamp = 1700000000000, form_status = ''pending''\<rparr>"

definition formB :: form where
  "formB = \<lparr>form_id = ''form-1700000000000-a2m8c1d5e'', form_data = payloadB,
     form_timestamp = 1700000000001, form_status = ''pending''\<rparr>"

definition w_one :: world where
  "w_one = snd (storeFormOffline 1700000000000 ''b7k3x9q0z'' 1700000000000 payloadA w_fresh)"

definition w_two :: world where
  "w_two = snd (storeFormOffline 1700000000000 ''a2m8c1d5e'' 1700000000001 payloadB w_one)"

text \<open>
  The date parser on the two dates of the example: 7 days and 1 second, and 6 days, before
  the time 1700000000000 of the cleanup. Any other text is not a date.
\<close>

definition parse_http_date :: "string \<Rightarrow> int option" where
  "parse_http_date s =
     (if s = ''Tue, 07 Nov 2023 22:13:19 GMT'' then Some 1699395199000
      else if s = ''Wed, 08 Nov 2023 22:13:20 GMT'' then Some 1699481600000
      else None)"

definition api_old :: response where
  "api_old = \<lparr>status = 200, statusText = ''OK'',
     headers = [(''content-type'', ''application/json''), (''date'', ''Tue, 07 Nov 2023 22:13:19 GMT'')],
     body = Text ''[1]''\<rparr>"

definition api_recent :: response where
  "api_recent = \<lparr>status = 200, statusText = ''OK'',
     headers = [(''content-type'', ''application/json''), (''date'', ''Wed, 08 Nov 2023 22:13:20 GMT'')],
     body = Text ''[2]''\<rparr>"

definition w_dated :: world where
  "w_dated = store_in DATA_CACHE_NAME ''/api/recent'' api_recent
     (store_in DATA_CACHE_NAME ''/api/old'' api_old w_fresh)"

definition w_form :: world where
  "w_form = cacheFormData 1600000000000 ''x1y2z3a4b'' payloadA w_dated"

section \<open>Properties\<close>

subsection \<open>Caches, Cache-First and Network-First\<close>

lemma map_of_filter_key:
  "map_of (filter (\<lambda>e. fst e \<noteq> k) c) k' = (if k' = k then None else map_of c k')"
  by (induction c) auto

lemma cache_match_put:
  "cache_match (cache_put k r c) k' = (if k' = k then Some r else cache_match c k')"
  by (simp add: cache_match_def cache_put_def cache_delete_def map_add_def map_of_filter_key
      split: option.splits)

lemma the_cache_caches_open [simp]:
  "the_cache (caches_open n cs) name = the_cache cs name"
  by (simp add: caches_open_def the_cache_def split: option.splits)

lemma open_cache_sel [simp]:
  "caches (open_cache n w) = caches_open n (caches w)"
  "fetch_log (open_cache n w) = fetch_log w"
  "console_errors (open_cache n w) = console_errors w"
  "skipWaiting_called (open_cache n w) = skipWaiting_called w"
  "pending_forms (open_cache n w) = pending_forms w"
  "completed_forms (open_cache n w) = completed_forms w"
  by (simp_all add: open_cache_def)

lemma console_error_sel [simp]:
  "caches (console_error m w) = caches w"
  "fetch_log (console_error m w) = fetch_log w"
  "console_errors (console_error m w) = console_errors w @ [m]"
  "skipWaiting_called (console_error m w) = skipWaiting_called w"
  "pending_forms (console_error m w) = pending_forms w"
  "completed_forms (console_error m w) = completed_forms w"
  "notifications (console_error m w) = notifications w"
  by (simp_all add: console_error_def)

lemma store_in_sel [simp]:
  "fetch_log (store_in n k r w) = fetch_log w"
  "console_errors (store_in n k r w) = console_errors w"
  "skipWaiting_called (store_in n k r w) = skipWaiting_called w"
  "pending_forms (store_in n k r w) = pending_forms w"
  "completed_forms (store_in n k r w) = completed_forms w"
  by (simp_all add: store_in_def)

lemma the_cache_store_in:
  "the_cache (caches (store_in n k r w)) name =
     (if name = n then cache_put k r (the_cache (caches w) n) else the_cache (caches w) name)"
  by (simp add: store_in_def the_cache_def)

lemma match_store_in:
  "cache_match (the_cache (caches (store_in n k r w)) name) k' =
     (if name = n \<and> k' = k then Some r else cache_match (the_cache (caches w) name) k')"
  by (simp add: the_cache_store_in cache_match_put)

lemma put_in_cases:
  "put_in n rq r w =
     (if cache_accepts rq r then store_in n (url rq) r w
      else console_error ''Unhandled rejection in Service Worker:'' w)"
  by (simp add: put_in_def cache_put_p_def)

lemma put_in_sel [simp]:
  "fetch_log (put_in n rq r w) = fetch_log w"
  "skipWaiting_called (put_in n rq r w) = skipWaiting_called w"
  "pending_forms (put_in n rq r w) = pending_forms w"
  "completed_forms (put_in n rq r w) = completed_forms w"
  by (simp_all add: put_in_cases)

lemma match_put_in:
  "cache_match (the_cache (caches (put_in n rq r w)) name) k' =
     (if cache_accepts rq r \<and> name = n \<and> k' = url rq then Some r
      else cache_match (the_cache (caches w) name) k')"
  by (simp add: put_in_cases match_store_in)


lemma fetch_sel [simp]:
  "fst (fetch net rq w) = net (fetch_log w) rq"
  "caches (snd (fetch net rq w)) = caches w"
  "fetch_log (snd (fetch net rq w)) = fetch_log w @ [rq]"
  "console_errors (snd (fetch net rq w)) = console_errors w"
  "skipWaiting_called (snd (fetch net rq w)) = skipWaiting_called w"
  "pending_forms (snd (fetch net rq w)) = pending_forms w"
  "completed_forms (snd (fetch net rq w)) = completed_forms w"
  "notifications (snd (fetch net rq w)) = notifications w"
  by (simp_all add: fetch_def)

lemma cacheFirst_hit:
  assumes "cache_match (the_cache (caches w) CACHE_NAME) (url rq) = Some c"
  shows "cacheFirstStrategy net rq w = (c, open_cache CACHE_NAME w)"
  using assms by (simp add: cacheFirstStrategy_def)

lemma cacheFirst_miss:
  assumes "cache_match (the_cache (caches w) CACHE_NAME) (url rq) = None"
  shows "cacheFirstStrategy net rq w =
     (case net (fetch_log w) rq of
        Inr r \<Rightarrow> (r, if ok r then put_in CACHE_NAME rq r (snd (fetch net rq (open_cache CACHE_NAME w)))
                      else snd (fetch net rq (open_cache CACHE_NAME w)))
      | Inl e \<Rightarrow> (new_Response (Text []) 404 ''Not Found'' [], snd (fetch net rq (open_cache CACHE_NAME w))))"
  using assms
  by (simp add: cacheFirstStrategy_def Let_def split_beta split: sum.splits)


lemma w_fresh_sel [simp]:
  "caches w_fresh = Map.empty" "pending_forms w_fresh = []" "completed_forms w_fresh = []"
  "idb_error w_fresh = None" "fetch_log w_fresh = []" "notifications w_fresh = []"
  "console_errors w_fresh = []" "skipWaiting_called w_fresh = False"
  "sync_supported w_fresh = Inr True" "sync_registrations w_fresh = []"
  by (simp_all add: w_fresh_def)

lemma the_cache_fresh [simp]: "the_cache (\<lambda>x. None) name = []"
  by (simp add: the_cache_def)





lemma networkFirst_response:
  assumes "net (fetch_log w) rq = Inr r"
  shows "networkFirstStrategy net rq w =
     (r, if ok r then put_in DATA_CACHE_NAME rq r (snd (fetch net rq (open_cache DATA_CACHE_NAME w)))
         else snd (fetch net rq (open_cache DATA_CACHE_NAME w)))"
  using assms by (simp add: networkFirstStrategy_def Let_def split_beta)

lemma networkFirst_failure:
  assumes "net (fetch_log w) rq = Inl e"
  shows "networkFirstStrategy net rq w =
     (case cache_match (the_cache (caches w) DATA_CACHE_NAME) (url rq) of
        Some c \<Rightarrow> c | None \<Rightarrow> offline_response,
      snd (fetch net rq (open_cache DATA_CACHE_NAME w)))"
  using assms by (simp add: networkFirstStrategy_def Let_def split_beta split: option.splits)

text \<open>
  Claim C4, as amended. Network-First: when the fetch fails at the transport level, the
  result is the data namespace's entry for the request when there is one, and otherwise
  the synthesized response with status 503 whose JSON body has the fields \<open>error\<close> and
  \<open>message\<close>. A response that arrives is the result whatever its status; a non-2xx one
  is returned to the caller as it is, the cache is not consulted and nothing is stored.
\<close>

theorem networkFirst_transport_failure:
  "(\<forall>e. net (fetch_log w) rq = Inl e \<longrightarrow>
      (\<forall>c. cache_match (the_cache (caches w) DATA_CACHE_NAME) (url rq) = Some c \<longrightarrow>
         fst (networkFirstStrategy net rq w) = c) \<and>
      (cache_match (the_cache (caches w) DATA_CACHE_NAME) (url rq) = None \<longrightarrow>
         status (fst (networkFirstStrategy net rq w)) = 503 \<and>
         body (fst (networkFirstStrategy net rq w)) =
           JSON_stringify (JObj [(''error'', JStr ''Offline''), (''message'', JStr offline_message)]))) \<and>
   (\<forall>r. net (fetch_log w) rq = Inr r \<longrightarrow>
      fst (networkFirstStrategy net rq w) = r \<and>
      (\<not> ok r \<longrightarrow>
         (\<forall>name. the_cache (caches (snd (networkFirstStrategy net rq w))) name
            = the_cache (caches w) name)))"
proof (intro conjI impI allI)
  fix e c assume e: "net (fetch_log w) rq = Inl e"
    and c: "cache_match (the_cache (caches w) DATA_CACHE_NAME) (url rq) = Some c"
  show "fst (networkFirstStrategy net rq w) = c"
    by (simp add: networkFirst_failure [where net = net and w = w and rq = rq, OF e] c)
next
  fix e assume e: "net (fetch_log w) rq = Inl e"
    and miss: "cache_match (the_cache (caches w) DATA_CACHE_NAME) (url rq) = None"
  show "status (fst (networkFirstStrategy net rq w)) = 503"
    by (simp add: networkFirst_failure [where net = net and w = w and rq = rq, OF e] miss offline_response_def new_Response_def)
  show "body (fst (networkFirstStrategy net rq w)) =
      JSON_stringify (JObj [(''error'', JStr ''Offline''), (''message'', JStr offline_message)])"
    by (simp add: networkFirst_failure [where net = net and w = w and rq = rq, OF e] miss offline_response_def new_Response_def)
next
  fix r assume r: "net (fetch_log w) rq = Inr r"
  show "fst (networkFirstStrategy net rq w) = r"
    by (simp add: networkFirst_response [where net = net and w = w and rq = rq, OF r])
  fix name assume "\<not> ok r"
  then show "the_cache (caches (snd (networkFirstStrategy net rq w))) name = the_cache (caches w) name"
    by (simp add: networkFirst_response [where net = net and w = w and rq = rq, OF r])
qed

text \<open>
  C4 as stated fails for a non-2xx response: the server answers 500 while the data
  namespace holds an earlier response for the same key, and the strategy returns the 500.
\<close>

theorem networkFirst_non_2xx_counterexample:
  "\<not> ok api_500 \<and>
   net_serving api_500 (fetch_log w_api) rq_api = Inr api_500 \<and>
   cache_match (the_cache (caches w_api) DATA_CACHE_NAME) (url rq_api) = Some api_cached \<and>
   fst (networkFirstStrategy (net_serving api_500) rq_api w_api) = api_500 \<and>
   api_500 \<noteq> api_cached"
  by (simp add: networkFirst_response net_serving_def ok_def api_500_def api_cached_def
      w_api_def match_store_in rq_api_def)

theorem networkFirst_transport_failure_witness:
  "net_down (fetch_log w_api) rq_api = Inl (TypeError ''Failed to fetch'') \<and>
   cache_match (the_cache (caches w_api) DATA_CACHE_NAME) (url rq_api) = Some api_cached \<and>
   fst (networkFirstStrategy net_down rq_api w_api) = api_cached \<and>
   cache_match (the_cache (caches w_fresh) DATA_CACHE_NAME) (url rq_api) = None \<and>
   status (fst (networkFirstStrategy net_down rq_api w_fresh)) = 503 \<and>
   net_serving api_500 (fetch_log w_api) rq_api = Inr api_500 \<and> \<not> ok api_500 \<and>
   fst (networkFirstStrategy (net_serving api_500) rq_api w_api) = api_500 \<and>
   the_cache (caches (snd (networkFirstStrategy (net_serving api_500) rq_api w_api))) DATA_CACHE_NAME
     = the_cache (caches w_api) DATA_CACHE_NAME"
proof -
  have down: "net_down (fetch_log w_api) rq_api = Inl (TypeError ''Failed to fetch'')"
    "net_down (fetch_log w_fresh) rq_api = Inl (TypeError ''Failed to fetch'')"
    by (simp_all add: net_down_def)
  have hit: "cache_match (the_cache (caches w_api) DATA_CACHE_NAME) (url rq_api) = Some api_cached"
    by (simp add: w_api_def match_store_in rq_api_def)
  have miss: "cache_match (the_cache (caches w_fresh) DATA_CACHE_NAME) (url rq_api) = None"
    by (simp add: cache_match_def)
  have served: "net_serving api_500 (fetch_log w_api) rq_api = Inr api_500"
    by (simp add: net_serving_def)
  have bad: "\<not> ok api_500"
    by (simp add: ok_def api_500_def)
  from networkFirst_transport_failure [of net_down w_api rq_api] down(1) hit
  have a: "fst (networkFirstStrategy net_down rq_api w_api) = api_cached"
    by simp
  from networkFirst_transport_failure [of net_down w_fresh rq_api] down(2) miss
  have b: "status (fst (networkFirstStrategy net_down rq_api w_fresh)) = 503"
    by simp
  from networkFirst_transport_failure [of "net_serving api_500" w_api rq_api] served bad
  have c: "fst (networkFirstStrategy (net_serving api_500) rq_api w_api) = api_500"
    "the_cache (caches (snd (networkFirstStrategy (net_serving api_500) rq_api w_api))) DATA_CACHE_NAME
       = the_cache (caches w_api) DATA_CACHE_NAME"
    by simp_all
  from down hit miss served bad a b c show ?thesis by simp
qed

lemma document_failure:
  assumes "net (fetch_log w) rq = Inl e \<or> (\<exists>r. net (fetch_log w) rq = Inr r \<and> \<not> ok r)"
  shows "documentStrategy offlineHTML net rq w =
     documentStrategy_catch offlineHTML rq (snd (fetch net rq (open_cache CACHE_NAME w)))"
  using assms by (auto simp: documentStrategy_def Let_def split_beta)

subsection \<open>What is written to the caches, install, and the document strategy\<close>

lemma written_store_in:
  assumes "cache_match (the_cache (caches (store_in n u r' w)) name) k = Some r" and "ok r'"
  shows "ok r \<or> cache_match (the_cache (caches w) name) k = Some r"
  using assms by (auto simp: match_store_in split: if_splits)

lemma written_put_in:
  assumes "cache_match (the_cache (caches (put_in n rq r' w)) name) k = Some r" and "ok r'"
  shows "ok r \<or> cache_match (the_cache (caches w) name) k = Some r"
  using assms by (auto simp: match_put_in split: if_splits)

lemma written_networkFirst:
  assumes "cache_match (the_cache (caches (snd (networkFirstStrategy net rq w))) name) k = Some r"
  shows "ok r \<or> cache_match (the_cache (caches w) name) k = Some r"
proof (cases "net (fetch_log w) rq")
  case (Inl e)
  with assms show ?thesis
    by (simp add: networkFirst_failure [where net = net and w = w and rq = rq, OF Inl])
next
  case (Inr r')
  show ?thesis
  proof (cases "ok r'")
    case True
    with assms Inr have "cache_match (the_cache (caches (put_in DATA_CACHE_NAME rq r'
        (snd (fetch net rq (open_cache DATA_CACHE_NAME w))))) name) k = Some r"
      by (simp add: networkFirst_response [where net = net and w = w and rq = rq, OF Inr])
    from written_put_in [OF this True] show ?thesis by simp
  next
    case False
    with assms Inr show ?thesis
      by (simp add: networkFirst_response [where net = net and w = w and rq = rq, OF Inr])
  qed
qed

lemma document_success:
  assumes "net (fetch_log w) rq = Inr r" and "ok r"
  shows "documentStrategy offlineHTML net rq w =
     (Resp r, put_in CACHE_NAME rq r (snd (fetch net rq (open_cache CACHE_NAME w))))"
  using assms by (simp add: documentStrategy_def Let_def split_beta)

lemma document_catch_world [simp]: "snd (documentStrategy_catch offlineHTML rq w) = w"
  by (simp add: documentStrategy_catch_def split: option.splits)

lemma written_document:
  assumes "cache_match (the_cache (caches (snd (documentStrategy offlineHTML net rq w))) name) k = Some r"
  shows "ok r \<or> cache_match (the_cache (caches w) name) k = Some r"
proof (cases "\<exists>r'. net (fetch_log w) rq = Inr r' \<and> ok r'")
  case True
  then obtain r' where r': "net (fetch_log w) rq = Inr r'" "ok r'" by blast
  with assms have "cache_match (the_cache (caches (put_in CACHE_NAME rq r'
      (snd (fetch net rq (open_cache CACHE_NAME w))))) name) k = Some r"
    by (simp add: document_success [where net = net and w = w and rq = rq, OF r'])
  from written_put_in [OF this r'(2)] show ?thesis by simp
next
  case False
  then have "(\<exists>e. net (fetch_log w) rq = Inl e) \<or> (\<exists>r. net (fetch_log w) rq = Inr r \<and> \<not> ok r)"
    by (cases "net (fetch_log w) rq") auto
  then have "documentStrategy offlineHTML net rq w =
     documentStrategy_catch offlineHTML rq (snd (fetch net rq (open_cache CACHE_NAME w)))"
    by (auto simp: documentStrategy_def Let_def split_beta)
  with assms show ?thesis by simp
qed

lemma written_cacheFirst:
  assumes "cache_match (the_cache (caches (snd (cacheFirstStrategy net rq w))) name) k = Some r"
  shows "ok r \<or> cache_match (the_cache (caches w) name) k = Some r"
proof (cases "cache_match (the_cache (caches w) CACHE_NAME) (url rq)")
  case (Some c)
  with assms show ?thesis by (simp add: cacheFirst_hit [OF Some])
next
  case None
  show ?thesis
  proof (cases "net (fetch_log w) rq")
    case (Inl e)
    with assms show ?thesis by (simp add: cacheFirst_miss [OF None])
  next
    case (Inr r')
    show ?thesis
    proof (cases "ok r'")
      case True
      with assms Inr have "cache_match (the_cache (caches (put_in CACHE_NAME rq r'
          (snd (fetch net rq (open_cache CACHE_NAME w))))) name) k = Some r"
        by (simp add: cacheFirst_miss [OF None])
      from written_put_in [OF this True] show ?thesis by simp
    next
      case False
      with assms Inr show ?thesis by (simp add: cacheFirst_miss [OF None])
    qed
  qed
qed

lemma cacheFormData_stores:
  "cacheFormData now rnd formData w =
     store_in DATA_CACHE_NAME (''form-'' @ show_number now @ ''-'' @ rnd)
       (new_Response (JSON_stringify formData) 200 [] []) (open_cache DATA_CACHE_NAME w)"
proof -
  have "cache_accepts (get_request (''form-'' @ show_number now @ ''-'' @ rnd))
      (new_Response (JSON_stringify formData) 200 [] [])"
    by (simp add: cache_accepts_def get_request_def new_Response_def vary_star_def headers_get_def)
  then show ?thesis
    by (simp add: cacheFormData_def Let_def cache_put_p_def get_request_def)
qed

lemma written_cacheFormData:
  assumes "cache_match (the_cache (caches (cacheFormData now rnd formData w)) name) k = Some r"
  shows "ok r \<or> cache_match (the_cache (caches w) name) k = Some r"
proof -
  have "ok (new_Response (JSON_stringify formData) 200 [] [])"
    by (simp add: ok_def new_Response_def)
  from written_store_in [OF assms [unfolded cacheFormData_stores] this]
  show ?thesis by simp
qed

lemma fetch_each_sel [simp]:
  "caches (snd (fetch_each net us w)) = caches w"
  "console_errors (snd (fetch_each net us w)) = console_errors w"
  "skipWaiting_called (snd (fetch_each net us w)) = skipWaiting_called w"
  by (induction us arbitrary: w) (simp_all add: split_beta)

lemma written_put_each:
  assumes "cache_match (the_cache (caches (put_each n us rs w)) name) k = Some r"
    and "list_all fetched_ok rs"
  shows "ok r \<or> cache_match (the_cache (caches w) name) k = Some r"
  using assms
proof (induction n us rs w rule: put_each.induct)
  case (1 n u us r' rs w)
  from "1.prems" have rest: "list_all fetched_ok rs"
    by simp
  from "1.prems" have "ok r'"
    by (simp add: fetched_ok_def)
  from "1.IH" "1.prems"(1) rest
  have "ok r \<or> cache_match (the_cache (caches (store_in n u r' w)) name) k = Some r"
    by simp
  with written_store_in [OF _ \<open>ok r'\<close>] show ?case by blast
qed simp_all

lemma install_failure:
  assumes "\<not> list_all fetched_ok (fst (fetch_each net CORE_CACHE_FILES (open_cache CACHE_NAME w)))"
  shows "install_listener net w =
     (Inr (), console_error ''Failed to cache core files:''
        (snd (fetch_each net CORE_CACHE_FILES (open_cache CACHE_NAME w))))"
  using assms
  by (simp add: install_listener_def then_p_def catch_p_def caches_open_p_def cache_addAll_def
      split_beta)

lemma install_success:
  assumes "list_all fetched_ok (fst (fetch_each net CORE_CACHE_FILES (open_cache CACHE_NAME w)))"
  shows "install_listener net w =
     (Inr (), (put_each CACHE_NAME CORE_CACHE_FILES
        (fst (fetch_each net CORE_CACHE_FILES (open_cache CACHE_NAME w)))
        (snd (fetch_each net CORE_CACHE_FILES (open_cache CACHE_NAME w))))\<lparr>skipWaiting_called := True\<rparr>)"
  using assms
  by (simp add: install_listener_def then_p_def catch_p_def caches_open_p_def cache_addAll_def
      split_beta skipWaiting_def)

lemma written_install:
  assumes "cache_match (the_cache (caches (snd (install_listener net w))) name) k = Some r"
  shows "ok r \<or> cache_match (the_cache (caches w) name) k = Some r"
proof (cases "list_all fetched_ok (fst (fetch_each net CORE_CACHE_FILES (open_cache CACHE_NAME w)))")
  case True
  with assms have "cache_match (the_cache (caches (put_each CACHE_NAME CORE_CACHE_FILES
        (fst (fetch_each net CORE_CACHE_FILES (open_cache CACHE_NAME w)))
        (snd (fetch_each net CORE_CACHE_FILES (open_cache CACHE_NAME w))))) name) k = Some r"
    by (simp add: install_success)
  from written_put_each [OF this True] show ?thesis by simp
next
  case False
  with assms show ?thesis by (simp add: install_failure)
qed

lemma written_fetch_listener:
  assumes "fetch_listener offlineHTML net rq w = Some (v, w')"
    and "cache_match (the_cache (caches w') name) k = Some r"
  shows "ok r \<or> cache_match (the_cache (caches w) name) k = Some r"
proof -
  from assms(1) have "w' = snd (networkFirstStrategy net rq w) \<or>
      w' = snd (documentStrategy offlineHTML net rq w) \<or> w' = snd (cacheFirstStrategy net rq w)"
    by (auto simp: fetch_listener_def split: if_splits prod.splits)
  with assms(2) written_networkFirst written_document written_cacheFirst
  show ?thesis by blast
qed

text \<open>
  Claim C6. Whatever a cache namespace holds after one of the operations that write to
  it (the three strategies, the fetch listener that dispatches to them, the
  \<^verbatim>\<open>CACHE_FORM_DATA\<close> command, and the install listener) either was there before or is
  a response with a 2xx status: a non-2xx response is never stored.
\<close>

theorem only_ok_responses_written:
  assumes "w' = snd (networkFirstStrategy net rq w) \<or>
           w' = snd (documentStrategy offlineHTML net rq w) \<or>
           w' = snd (cacheFirstStrategy net rq w) \<or>
           w' = cacheFormData now rnd formData w \<or>
           w' = snd (install_listener net w) \<or>
           (\<exists>v. fetch_listener offlineHTML net rq w = Some (v, w'))"
    and "cache_match (the_cache (caches w') name) k = Some r"
  shows "ok r \<or> cache_match (the_cache (caches w) name) k = Some r"
proof -
  note entry = assms(2)
  from assms(1) consider
      (network_first) "w' = snd (networkFirstStrategy net rq w)"
    | (document) "w' = snd (documentStrategy offlineHTML net rq w)"
    | (cache_first) "w' = snd (cacheFirstStrategy net rq w)"
    | (command) "w' = cacheFormData now rnd formData w"
    | (install) "w' = snd (install_listener net w)"
    | (listener) v where "fetch_listener offlineHTML net rq w = Some (v, w')"
    by blast
  then show ?thesis
  proof cases
    case network_first
    with entry show ?thesis by (simp add: written_networkFirst)
  next
    case document
    with entry show ?thesis by (simp add: written_document)
  next
    case cache_first
    with entry show ?thesis by (simp add: written_cacheFirst)
  next
    case command
    with entry show ?thesis by (simp add: written_cacheFormData)
  next
    case install
    with entry show ?thesis by (simp add: written_install)
  next
    case listener
    from written_fetch_listener [OF listener entry] show ?thesis .
  qed
qed

theorem only_ok_responses_written_witness:
  "cache_match (the_cache (caches (snd (networkFirstStrategy (net_serving api_cached) rq_api w_fresh)))
      DATA_CACHE_NAME) ''/api/forms'' = Some api_cached \<and>
   ok api_cached \<and>
   \<not> ok api_500 \<and>
   cache_match (the_cache (caches (snd (networkFirstStrategy (net_serving api_500) rq_api w_fresh)))
      DATA_CACHE_NAME) ''/api/forms'' \<noteq> Some api_500"
proof -
  have stored: "cache_match (the_cache (caches (snd (networkFirstStrategy (net_serving api_cached) rq_api w_fresh)))
      DATA_CACHE_NAME) ''/api/forms'' = Some api_cached"
  proof -
    have served: "net_serving api_cached (fetch_log w_fresh) rq_api = Inr api_cached"
      by (simp add: net_serving_def)
    have key: "url rq_api = ''/api/forms''"
      by (simp add: rq_api_def)
    have "ok api_cached"
      by (simp add: ok_def api_cached_def)
    moreover have "cache_accepts rq_api api_cached"
      by (simp add: cache_accepts_def rq_api_def api_cached_def vary_star_def headers_get_def)
    ultimately show ?thesis
      by (simp add: networkFirst_response [where net = "net_serving api_cached", OF served]
          match_put_in key)
  qed
  have fresh: "cache_match (the_cache (caches w_fresh) DATA_CACHE_NAME) ''/api/forms'' = None"
    by (simp add: w_fresh_def the_cache_def cache_match_def)
  have bad: "\<not> ok api_500"
    by (simp add: ok_def api_500_def)
  from only_ok_responses_written [OF disjI1 [OF refl] stored] fresh
  have good: "ok api_cached" by simp
  have absent: "cache_match (the_cache (caches (snd (networkFirstStrategy (net_serving api_500) rq_api w_fresh)))
      DATA_CACHE_NAME) ''/api/forms'' \<noteq> Some api_500"
  proof
    assume "cache_match (the_cache (caches (snd (networkFirstStrategy (net_serving api_500) rq_api w_fresh)))
      DATA_CACHE_NAME) ''/api/forms'' = Some api_500"
    from only_ok_responses_written [OF disjI1 [OF refl] this] fresh bad
    show False by simp
  qed
  from stored good bad absent show ?thesis by simp
qed

text \<open>
  Claim C3, as amended. When populating the core namespace fails during install, the
  listener catches the failure and logs it: the promise it handed to
  \<^verbatim>\<open>event.waitUntil\<close> is fulfilled, not rejected; \<^verbatim>\<open>skipWaiting\<close> is not called; and
  no namespace gains an entry.
\<close>

theorem install_failure_fulfilled:
  assumes "fst (cache_addAll net CORE_CACHE_FILES CACHE_NAME (open_cache CACHE_NAME w)) = Inl e"
  shows "fst (install_listener net w) = Inr () \<and>
         console_errors (snd (install_listener net w))
           = console_errors w @ [''Failed to cache core files:''] \<and>
         skipWaiting_called (snd (install_listener net w)) = skipWaiting_called w \<and>
         (\<forall>name. the_cache (caches (snd (install_listener net w))) name = the_cache (caches w) name)"
proof -
  from assms have "\<not> list_all fetched_ok (fst (fetch_each net CORE_CACHE_FILES (open_cache CACHE_NAME w)))"
    by (auto simp: cache_addAll_def split_beta split: if_splits)
  then show ?thesis by (simp add: install_failure)
qed

text \<open>
  C3 as stated fails: with the network down \<^verbatim>\<open>cache.addAll\<close> rejects, and the install
  listener's promise is fulfilled all the same.
\<close>

theorem install_failure_counterexample:
  "fst (cache_addAll net_down CORE_CACHE_FILES CACHE_NAME (open_cache CACHE_NAME w_fresh))
     = Inl (TypeError ''Request failed'') \<and>
   fst (install_listener net_down w_fresh) = Inr ()"
  by (simp add: install_listener_def then_p_def catch_p_def caches_open_p_def cache_addAll_def
      split_beta CORE_CACHE_FILES_def net_down_def fetched_ok_def)

theorem install_failure_fulfilled_witness:
  "fst (cache_addAll net_down CORE_CACHE_FILES CACHE_NAME (open_cache CACHE_NAME w_fresh))
     = Inl (TypeError ''Request failed'') \<and>
   fst (install_listener net_down w_fresh) = Inr () \<and>
   console_errors (snd (install_listener net_down w_fresh)) = [''Failed to cache core files:''] \<and>
   skipWaiting_called (snd (install_listener net_down w_fresh)) = False \<and>
   the_cache (caches (snd (install_listener net_down w_fresh))) CACHE_NAME = []"
proof -
  have rejected: "fst (cache_addAll net_down CORE_CACHE_FILES CACHE_NAME (open_cache CACHE_NAME w_fresh))
     = Inl (TypeError ''Request failed'')"
    by (simp add: cache_addAll_def split_beta CORE_CACHE_FILES_def net_down_def fetched_ok_def)
  have start: "console_errors w_fresh = []" "skipWaiting_called w_fresh = False"
    "the_cache (caches w_fresh) CACHE_NAME = []"
    by (simp_all add: w_fresh_def the_cache_def)
  from install_failure_fulfilled [OF rejected] start rejected show ?thesis by simp
qed

text \<open>
  What \<^verbatim>\<open>documentStrategy\<close> resolves to, case by case: the live response on a 2xx
  answer; after a failure or a non-2xx answer the core namespace's entry for the request,
  else its entry for \<^verbatim>\<open>/offline.html\<close>, else \<^verbatim>\<open>undefined\<close>.
\<close>

lemma document_renders:
  "(\<forall>r. net (fetch_log w) rq = Inr r \<longrightarrow> ok r \<longrightarrow>
      fst (documentStrategy offlineHTML net rq w) = Resp r) \<and>
   ((\<exists>e. net (fetch_log w) rq = Inl e) \<or> (\<exists>r. net (fetch_log w) rq = Inr r \<and> \<not> ok r) \<longrightarrow>
      (\<forall>c. cache_match (the_cache (caches w) CACHE_NAME) (url rq) = Some c \<longrightarrow>
         fst (documentStrategy offlineHTML net rq w) = Resp c) \<and>
      (cache_match (the_cache (caches w) CACHE_NAME) (url rq) = None \<longrightarrow>
         fst (documentStrategy offlineHTML net rq w)
           = (case cache_match (the_cache (caches w) CACHE_NAME) OFFLINE_URL of
                Some page \<Rightarrow> Resp page | None \<Rightarrow> Undefined)))"
proof (intro conjI allI impI)
  fix r assume "net (fetch_log w) rq = Inr r" and "ok r"
  then show "fst (documentStrategy offlineHTML net rq w) = Resp r"
    by (simp add: document_success [where net = net and w = w and rq = rq])
next
  assume failed: "(\<exists>e. net (fetch_log w) rq = Inl e) \<or> (\<exists>r. net (fetch_log w) rq = Inr r \<and> \<not> ok r)"
  then have catch: "documentStrategy offlineHTML net rq w =
     documentStrategy_catch offlineHTML rq (snd (fetch net rq (open_cache CACHE_NAME w)))"
    by (auto simp: documentStrategy_def Let_def split_beta)
  {
    fix c assume "cache_match (the_cache (caches w) CACHE_NAME) (url rq) = Some c"
    then show "fst (documentStrategy offlineHTML net rq w) = Resp c"
      by (simp add: catch documentStrategy_catch_def)
  }
  assume "cache_match (the_cache (caches w) CACHE_NAME) (url rq) = None"
  then show "fst (documentStrategy offlineHTML net rq w)
      = (case cache_match (the_cache (caches w) CACHE_NAME) OFFLINE_URL of
           Some page \<Rightarrow> Resp page | None \<Rightarrow> Undefined)"
    by (simp add: catch documentStrategy_catch_def js_or_def match_promise_def split: option.splits)
qed

text \<open>
  The same after an install that failed to fetch the core files: the install completes
  with an empty core namespace, and a navigation while offline gets no response.
\<close>

lemma document_after_failed_install:
  "fst (cache_addAll net_down CORE_CACHE_FILES CACHE_NAME (open_cache CACHE_NAME w_fresh))
     = Inl (TypeError ''Request failed'') \<and>
   fst (documentStrategy offlineHTML net_down rq_page (snd (install_listener net_down w_fresh)))
     = Undefined"
proof -
  have rejected: "fst (cache_addAll net_down CORE_CACHE_FILES CACHE_NAME (open_cache CACHE_NAME w_fresh))
     = Inl (TypeError ''Request failed'')"
    by (simp add: cache_addAll_def split_beta CORE_CACHE_FILES_def net_down_def fetched_ok_def)
  then have "\<not> list_all fetched_ok (fst (fetch_each net_down CORE_CACHE_FILES (open_cache CACHE_NAME w_fresh)))"
    by (auto simp: cache_addAll_def split_beta split: if_splits)
  then have "the_cache (caches (snd (install_listener net_down w_fresh))) CACHE_NAME
      = the_cache (caches w_fresh) CACHE_NAME"
    by (simp add: install_failure)
  moreover have "the_cache (caches w_fresh) CACHE_NAME = []"
    by (simp add: w_fresh_def the_cache_def)
  ultimately have empty: "the_cache (caches (snd (install_listener net_down w_fresh))) CACHE_NAME = []"
    by simp
  have down: "net_down (fetch_log (snd (install_listener net_down w_fresh))) rq_page
      = Inl (TypeError ''Failed to fetch'')"
    by (simp add: net_down_def)
  from document_renders [of net_down "snd (install_listener net_down w_fresh)" rq_page offlineHTML]
    down empty
  have "fst (documentStrategy offlineHTML net_down rq_page (snd (install_listener net_down w_fresh)))
     = Undefined"
    by (simp add: cache_match_def)
  with rejected show ?thesis by simp
qed

text \<open>
  Claim C2 fails on the code. With the network down and a core namespace that holds
  neither the page nor \<^verbatim>\<open>/offline.html\<close> (a fresh worker, or one whose install could
  not fetch the core files), \<^verbatim>\<open>documentStrategy\<close> resolves to \<^verbatim>\<open>undefined\<close>: the
  promise of \<^verbatim>\<open>cache.match(OFFLINE_URL)\<close> is truthy, so the inline page to the right of
  \<^verbatim>\<open>||\<close> is never built.
\<close>

theorem document_no_response:
  "fst (documentStrategy offlineHTML net_down rq_page w_fresh) = Undefined \<and>
   fst (documentStrategy offlineHTML net_down rq_page (snd (install_listener net_down w_fresh)))
     = Undefined"
proof -
  have "fst (documentStrategy offlineHTML net_down rq_page w_fresh) = Undefined"
    by (simp add: document_failure net_down_def documentStrategy_catch_def w_fresh_def
        the_cache_def cache_match_def caches_open_def js_or_def match_promise_def)
  with document_after_failed_install show ?thesis by simp
qed

subsection \<open>The drain of the pending store\<close>

lemma showNotification_sel [simp]:
  "caches (showNotification n w) = caches w"
  "fetch_log (showNotification n w) = fetch_log w"
  "console_errors (showNotification n w) = console_errors w"
  "pending_forms (showNotification n w) = pending_forms w"
  "completed_forms (showNotification n w) = completed_forms w"
  "notifications (showNotification n w) = notifications w @ [n]"
  by (simp_all add: showNotification_def)

lemma sync_form_completed [simp]:
  "completed_forms (sync_form net f w) = completed_forms w"
  by (simp add: sync_form_def Let_def split_beta split: sum.splits)

lemma sync_loop_completed [simp]:
  "completed_forms (sync_loop net items w) = completed_forms w"
  by (induction items arbitrary: w) simp_all

lemma storeFormOffline_completed [simp]:
  "completed_forms (snd (storeFormOffline now1 rnd now2 formData w)) = completed_forms w"
  by (simp add: storeFormOffline_def Let_def split: sum.splits)

text \<open>
  A drain never reaches its loop: whether or not the database opens, all it does is log
  the failure.
\<close>

lemma sync_throws:
  "syncFormSubmissions net w = console_error ''Background sync failed:'' w"
  by (simp add: syncFormSubmissions_def store_getAll_def await_value_def split: sum.splits)

subsection \<open>The drain on concrete stores\<close>

lemma show_number_example: "show_number 1700000000000 = ''1700000000000''"
  by (simp add: show_number_def digit_char_def)

lemma w_one_eq:
  "w_one = w_fresh\<lparr>pending_forms := [formA], sync_registrations := [''form-submission'']\<rparr>"
  by (simp add: w_one_def storeFormOffline_def openDB_def store_add_def show_number_example
      formA_def Let_def)

lemma w_two_eq:
  "w_two = w_fresh\<lparr>pending_forms := [formB, formA],
     sync_registrations := [''form-submission'', ''form-submission'']\<rparr>"
  by (simp add: w_two_def w_one_eq storeFormOffline_def openDB_def store_add_def
      show_number_example formA_def formB_def Let_def)

text \<open>
  Claim C8 fails on the code. With two records pending, a drain makes no delivery attempt
  at all, whatever the network would answer: \<^verbatim>\<open>await store.getAll()\<close> is the request
  object, the loop over it throws before its first round, and the outer \<^verbatim>\<open>catch\<close> logs
  the error. Both records stay in the store.
\<close>

theorem drain_makes_no_attempt:
  "pending_forms w_two = [formB, formA] \<and>
   fetch_log (syncFormSubmissions net w_two) = [] \<and>
   pending_forms (syncFormSubmissions net w_two) = [formB, formA] \<and>
   notifications (syncFormSubmissions net w_two) = [] \<and>
   console_errors (syncFormSubmissions net w_two) = [''Background sync failed:'']"
  by (simp add: sync_throws w_two_eq)

text \<open>
  Claim C1, as amended. No operation on the durable store inserts a completed
  submission: a drain, the loop of the drain over any list of records and with any
  network, and storing a form offline each leave the completed collection as it was.
\<close>

theorem completed_never_written:
  "completed_forms (syncFormSubmissions net w) = completed_forms w \<and>
   completed_forms (sync_loop net items w) = completed_forms w \<and>
   completed_forms (snd (storeFormOffline now1 rnd now2 formData w)) = completed_forms w"
  by (simp add: sync_throws)

text \<open>
  C1 as stated fails: one pending record and a server that would acknowledge its POST with
  201; after the drain the completed collection is empty, and the record is still pending.
\<close>

theorem drain_completed_counterexample:
  "pending_forms w_one = [formA] \<and>
   net_serving ack_201 (fetch_log w_one) (submit_request (form_data formA)) = Inr ack_201 \<and>
   ok ack_201 \<and>
   completed_forms (syncFormSubmissions (net_serving ack_201) w_one) = [] \<and>
   pending_forms (syncFormSubmissions (net_serving ack_201) w_one) = [formA]"
  by (simp add: sync_throws w_one_eq net_serving_def ok_def ack_201_def)

subsection \<open>The cleanup loop\<close>

lemma the_cache_update:
  "the_cache (cs(n \<mapsto> c)) name = (if name = n then c else the_cache cs name)"
  by (simp add: the_cache_def)

lemma cleanup_entry_hit:
  assumes "cache_match c k = Some r"
  shows "cleanup_entry parse now k c = Inr (if stale parse now r then cache_delete k c else c)"
  using assms by (simp add: cleanup_entry_def stale_def split: option.splits)

lemma map_of_distinct_entry:
  assumes "distinct (map fst c)" and "e \<in> set c" and "map_of c (fst e) = Some r"
  shows "snd e = r"
proof -
  from assms(2) have "(fst e, snd e) \<in> set c" by simp
  with assms(1) have "map_of c (fst e) = Some (snd e)" by (rule map_of_is_SomeI)
  with assms(3) show ?thesis by simp
qed

lemma cleanup_loop_filter:
  assumes "distinct (map fst c)" and "distinct ks" and "set ks \<subseteq> set (map fst c)"
  shows "cleanup_loop parse now ks c =
     (None, filter (\<lambda>e. \<not> (fst e \<in> set ks \<and> stale parse now (snd e))) c)"
  using assms
proof (induction ks arbitrary: c)
  case Nil
  show ?case by simp
next
  case (Cons k ks)
  from Cons.prems(3) have "k \<in> set (map fst c)" by simp
  then obtain r where r: "map_of c k = Some r"
    by (metis map_of_eq_None_iff not_None_eq set_map)
  define c' where "c' = (if stale parse now r then cache_delete k c else c)"
  from r have step: "cleanup_entry parse now k c = Inr c'"
    by (simp add: cleanup_entry_hit cache_match_def c'_def)
  from Cons.prems(1) have d': "distinct (map fst c')"
    by (simp add: c'_def cache_delete_def distinct_map_filter)
  from Cons.prems(2) have dk: "distinct ks" and fresh: "k \<notin> set ks" by simp_all
  have sub: "set ks \<subseteq> set (map fst c')"
  proof
    fix x assume x: "x \<in> set ks"
    with fresh have "x \<noteq> k" by blast
    moreover from x Cons.prems(3) obtain e where "e \<in> set c" "fst e = x" by auto
    ultimately have "e \<in> set c'" by (simp add: c'_def cache_delete_def)
    with \<open>fst e = x\<close> show "x \<in> set (map fst c')" by force
  qed
  have same: "filter (\<lambda>e. \<not> (fst e \<in> set ks \<and> stale parse now (snd e))) c'
      = filter (\<lambda>e. \<not> (fst e \<in> set (k # ks) \<and> stale parse now (snd e))) c"
  proof (cases "stale parse now r")
    case True
    have "filter (\<lambda>e. \<not> (fst e \<in> set ks \<and> stale parse now (snd e))) (filter (\<lambda>e. fst e \<noteq> k) c)
        = filter (\<lambda>e. \<not> (fst e \<in> set (k # ks) \<and> stale parse now (snd e))) c"
      unfolding filter_filter
    proof (rule filter_cong [OF refl])
      fix e assume e: "e \<in> set c"
      show "(fst e \<noteq> k \<and> \<not> (fst e \<in> set ks \<and> stale parse now (snd e)))
          = (\<not> (fst e \<in> set (k # ks) \<and> stale parse now (snd e)))"
      proof (cases "fst e = k")
        case same_key: True
        with map_of_distinct_entry [OF Cons.prems(1) e] r have "snd e = r" by simp
        with same_key True show ?thesis by simp
      next
        case False
        then show ?thesis by simp
      qed
    qed
    with True show ?thesis by (simp add: c'_def cache_delete_def)
  next
    case False
    have "filter (\<lambda>e. \<not> (fst e \<in> set ks \<and> stale parse now (snd e))) c
        = filter (\<lambda>e. \<not> (fst e \<in> set (k # ks) \<and> stale parse now (snd e))) c"
    proof (rule filter_cong [OF refl])
      fix e assume e: "e \<in> set c"
      show "(\<not> (fst e \<in> set ks \<and> stale parse now (snd e)))
          = (\<not> (fst e \<in> set (k # ks) \<and> stale parse now (snd e)))"
      proof (cases "fst e = k")
        case same_key: True
        with map_of_distinct_entry [OF Cons.prems(1) e] r have "snd e = r" by simp
        with same_key False fresh show ?thesis by simp
      next
        case False
        then show ?thesis by simp
      qed
    qed
    with False show ?thesis by (simp add: c'_def)
  qed
  from Cons.IH [OF d' dk sub] step same show ?case by simp
qed

lemma map_of_filter_distinct:
  assumes "distinct (map fst c)"
  shows "map_of (filter P c) k =
     (case map_of c k of None \<Rightarrow> None | Some r \<Rightarrow> if P (k, r) then Some r else None)"
  using assms
proof (induction c)
  case Nil
  show ?case by simp
next
  case (Cons e c)
  obtain k' r' where e: "e = (k', r')" by (cases e)
  show ?case
  proof (cases "k' = k")
    case True
    with Cons.prems e have "k \<notin> fst ` set c" by auto
    then have "map_of c k = None" "map_of (filter P c) k = None"
      by (auto simp: map_of_eq_None_iff)
    with True e show ?thesis by simp
  next
    case False
    with Cons e show ?thesis by simp
  qed
qed

lemma cleanup_data_cache:
  assumes "distinct (cache_keys (the_cache (caches w) DATA_CACHE_NAME))"
  shows "the_cache (caches (cleanupOldCache parse now w)) DATA_CACHE_NAME
     = filter (\<lambda>e. \<not> stale parse now (snd e)) (the_cache (caches w) DATA_CACHE_NAME)"
proof -
  let ?c = "the_cache (caches w) DATA_CACHE_NAME"
  from assms have d: "distinct (map fst ?c)" by (simp add: cache_keys_def)
  have "cleanup_loop parse now (cache_keys ?c) ?c
      = (None, filter (\<lambda>e. \<not> (fst e \<in> set (cache_keys ?c) \<and> stale parse now (snd e))) ?c)"
    unfolding cache_keys_def by (rule cleanup_loop_filter [OF d d]) simp
  moreover have "filter (\<lambda>e. \<not> (fst e \<in> set (cache_keys ?c) \<and> stale parse now (snd e))) ?c
      = filter (\<lambda>e. \<not> stale parse now (snd e)) ?c"
    by (rule filter_cong [OF refl]) (simp add: cache_keys_def)
  ultimately have loop: "cleanup_loop parse now (cache_keys ?c) ?c
      = (None, filter (\<lambda>e. \<not> stale parse now (snd e)) ?c)"
    by simp
  show ?thesis
    by (simp add: cleanupOldCache_def Let_def loop the_cache_update)
qed

lemma cleanup_match:
  assumes "distinct (cache_keys (the_cache (caches w) DATA_CACHE_NAME))"
  shows "cache_match (the_cache (caches (cleanupOldCache parse now w)) DATA_CACHE_NAME) k =
     (case cache_match (the_cache (caches w) DATA_CACHE_NAME) k of
        None \<Rightarrow> None
      | Some r \<Rightarrow> if stale parse now r then None else Some r)"
proof -
  from assms have "distinct (map fst (the_cache (caches w) DATA_CACHE_NAME))"
    by (simp add: cache_keys_def)
  from map_of_filter_distinct [OF this, of "\<lambda>e. \<not> stale parse now (snd e)" k]
  show ?thesis
    by (simp add: cleanup_data_cache [OF assms] cache_match_def split: option.splits)
qed

lemma cleanup_keys_distinct:
  assumes "distinct (cache_keys (the_cache (caches w) DATA_CACHE_NAME))"
  shows "distinct (cache_keys (the_cache (caches (cleanupOldCache parse now w)) DATA_CACHE_NAME))"
  using assms by (simp add: cleanup_data_cache [OF assms] cache_keys_def distinct_map_filter)

lemma cache_put_distinct:
  "distinct (cache_keys c) \<Longrightarrow> distinct (cache_keys (cache_put k r c))"
  by (auto simp: cache_keys_def cache_put_def cache_delete_def distinct_map_filter)

subsection \<open>The retention window\<close>

lemma stale_dated:
  assumes "headers_get r ''date'' = Some d" and "d \<noteq> []" and "parse d = Some t"
  shows "stale parse now r \<longleftrightarrow> now - t > 7 * 24 * 60 * 60 * 1000"
  using assms by (simp add: stale_def maxAge_def)

lemma stale_undated:
  assumes "headers_get r ''date'' = None"
  shows "\<not> stale parse now r"
  using assms by (simp add: stale_def)

text \<open>
  Claim C9. For an entry of the data namespace whose response carries a \<open>date\<close> header
  that parses to the time \<open>t\<close> (milliseconds), the cleanup at time \<open>now\<close> deletes the
  entry when \<open>now - t\<close> exceeds 7 days and keeps it, with the same response, otherwise:
  an entry of \<open>now\<close> minus 7 days minus 1 second is deleted, one of \<open>now\<close> minus 6 days
  is kept.
\<close>

theorem cleanup_retention_window:
  assumes "distinct (cache_keys (the_cache (caches w) DATA_CACHE_NAME))"
    and "cache_match (the_cache (caches w) DATA_CACHE_NAME) k = Some r"
    and "headers_get r ''date'' = Some d" and "d \<noteq> []" and "parse d = Some t"
  shows "cache_match (the_cache (caches (cleanupOldCache parse now w)) DATA_CACHE_NAME) k
           = (if now - t > 7 * 24 * 60 * 60 * 1000 then None else Some r) \<and>
         (t = now - 7 * 24 * 60 * 60 * 1000 - 1000 \<longrightarrow>
            cache_match (the_cache (caches (cleanupOldCache parse now w)) DATA_CACHE_NAME) k = None) \<and>
         (t = now - 6 * 24 * 60 * 60 * 1000 \<longrightarrow>
            cache_match (the_cache (caches (cleanupOldCache parse now w)) DATA_CACHE_NAME) k = Some r)"
proof -
  have "cache_match (the_cache (caches (cleanupOldCache parse now w)) DATA_CACHE_NAME) k
      = (if now - t > 7 * 24 * 60 * 60 * 1000 then None else Some r)"
    by (simp add: cleanup_match [OF assms(1)] assms(2) stale_dated [where parse = parse, OF assms(3-5)])
  then show ?thesis by simp
qed

theorem cleanup_retention_window_witness:
  "distinct (cache_keys (the_cache (caches w_dated) DATA_CACHE_NAME)) \<and>
   cache_match (the_cache (caches w_dated) DATA_CACHE_NAME) ''/api/old'' = Some api_old \<and>
   headers_get api_old ''date'' = Some ''Tue, 07 Nov 2023 22:13:19 GMT'' \<and>
   parse_http_date ''Tue, 07 Nov 2023 22:13:19 GMT'' = Some (1700000000000 - 7 * 24 * 60 * 60 * 1000 - 1000) \<and>
   cache_match (the_cache (caches (cleanupOldCache parse_http_date 1700000000000 w_dated)) DATA_CACHE_NAME)
     ''/api/old'' = None \<and>
   cache_match (the_cache (caches w_dated) DATA_CACHE_NAME) ''/api/recent'' = Some api_recent \<and>
   headers_get api_recent ''date'' = Some ''Wed, 08 Nov 2023 22:13:20 GMT'' \<and>
   parse_http_date ''Wed, 08 Nov 2023 22:13:20 GMT'' = Some (1700000000000 - 6 * 24 * 60 * 60 * 1000) \<and>
   cache_match (the_cache (caches (cleanupOldCache parse_http_date 1700000000000 w_dated)) DATA_CACHE_NAME)
     ''/api/recent'' = Some api_recent"
proof -
  have cache: "the_cache (caches w_dated) DATA_CACHE_NAME
      = [(''/api/old'', api_old), (''/api/recent'', api_recent)]"
    by (simp add: w_dated_def the_cache_store_in cache_put_def cache_delete_def)
  have keys: "distinct (cache_keys (the_cache (caches w_dated) DATA_CACHE_NAME))"
    by (simp add: cache cache_keys_def)
  have old: "cache_match (the_cache (caches w_dated) DATA_CACHE_NAME) ''/api/old'' = Some api_old"
    and recent: "cache_match (the_cache (caches w_dated) DATA_CACHE_NAME) ''/api/recent'' = Some api_recent"
    by (simp_all add: cache cache_match_def)
  have old_date: "headers_get api_old ''date'' = Some ''Tue, 07 Nov 2023 22:13:19 GMT''"
    and recent_date: "headers_get api_recent ''date'' = Some ''Wed, 08 Nov 2023 22:13:20 GMT''"
    by (simp_all add: headers_get_def api_old_def api_recent_def)
  have old_time: "parse_http_date ''Tue, 07 Nov 2023 22:13:19 GMT''
      = Some (1700000000000 - 7 * 24 * 60 * 60 * 1000 - 1000)"
    and recent_time: "parse_http_date ''Wed, 08 Nov 2023 22:13:20 GMT''
      = Some (1700000000000 - 6 * 24 * 60 * 60 * 1000)"
    by (simp_all add: parse_http_date_def)
  have old_ne: "''Tue, 07 Nov 2023 22:13:19 GMT'' \<noteq> []"
    and recent_ne: "''Wed, 08 Nov 2023 22:13:20 GMT'' \<noteq> []"
    by simp_all
  from cleanup_retention_window [where parse = parse_http_date and now = 1700000000000,
      OF keys old old_date old_ne old_time]
  have gone: "cache_match (the_cache (caches (cleanupOldCache parse_http_date 1700000000000 w_dated))
      DATA_CACHE_NAME) ''/api/old'' = None"
    by simp
  from cleanup_retention_window [where parse = parse_http_date and now = 1700000000000,
      OF keys recent recent_date recent_ne recent_time]
  have kept: "cache_match (the_cache (caches (cleanupOldCache parse_http_date 1700000000000 w_dated))
      DATA_CACHE_NAME) ''/api/recent'' = Some api_recent"
    by simp
  from keys old recent old_date recent_date old_time recent_time gone kept
  show ?thesis by blast
qed

text \<open>
  Claim C10. A cleanup pass keeps every entry whose response has no \<open>date\<close> header,
  whatever the time of the pass; an entry it deletes has one. The entry that
  \<^verbatim>\<open>cacheFormData\<close> writes has none and is kept. The keys stay distinct, so the same
  holds for the next pass.
\<close>

theorem cleanup_keeps_undated:
  assumes "distinct (cache_keys (the_cache (caches w) DATA_CACHE_NAME))"
  shows "(\<forall>k r. cache_match (the_cache (caches w) DATA_CACHE_NAME) k = Some r \<longrightarrow>
            headers_get r ''date'' = None \<longrightarrow>
            cache_match (the_cache (caches (cleanupOldCache parse now w)) DATA_CACHE_NAME) k = Some r) \<and>
         (\<forall>k r. cache_match (the_cache (caches w) DATA_CACHE_NAME) k = Some r \<longrightarrow>
            cache_match (the_cache (caches (cleanupOldCache parse now w)) DATA_CACHE_NAME) k = None \<longrightarrow>
            headers_get r ''date'' \<noteq> None) \<and>
         cache_match (the_cache (caches (cleanupOldCache parse now (cacheFormData t rnd d w)))
             DATA_CACHE_NAME) (''form-'' @ show_number t @ ''-'' @ rnd)
           = Some (new_Response (JSON_stringify d) 200 [] []) \<and>
         distinct (cache_keys (the_cache (caches (cleanupOldCache parse now w)) DATA_CACHE_NAME))"
proof (intro conjI allI impI)
  fix k r
  assume "cache_match (the_cache (caches w) DATA_CACHE_NAME) k = Some r"
    and "headers_get r ''date'' = None"
  then show "cache_match (the_cache (caches (cleanupOldCache parse now w)) DATA_CACHE_NAME) k = Some r"
    by (simp add: cleanup_match [OF assms] stale_undated)
next
  fix k r
  assume "cache_match (the_cache (caches w) DATA_CACHE_NAME) k = Some r"
    and "cache_match (the_cache (caches (cleanupOldCache parse now w)) DATA_CACHE_NAME) k = None"
  then have "stale parse now r"
    by (simp add: cleanup_match [OF assms] split: if_splits)
  then show "headers_get r ''date'' \<noteq> None"
    by (auto simp: stale_def split: option.splits)
next
  let ?w = "cacheFormData t rnd d w"
  let ?key = "''form-'' @ show_number t @ ''-'' @ rnd"
  let ?resp = "new_Response (JSON_stringify d) 200 [] []"
  have cache: "the_cache (caches ?w) DATA_CACHE_NAME
      = cache_put ?key ?resp (the_cache (caches w) DATA_CACHE_NAME)"
    by (simp add: cacheFormData_stores the_cache_store_in)
  with assms have keys: "distinct (cache_keys (the_cache (caches ?w) DATA_CACHE_NAME))"
    by (simp add: cache_put_distinct)
  have undated: "headers_get ?resp ''date'' = None"
    by (simp add: headers_get_def new_Response_def)
  have "cache_match (the_cache (caches ?w) DATA_CACHE_NAME) ?key = Some ?resp"
    by (simp add: cache cache_match_put)
  then show "cache_match (the_cache (caches (cleanupOldCache parse now ?w)) DATA_CACHE_NAME) ?key
      = Some ?resp"
    by (simp add: cleanup_match [OF keys] stale_undated [OF undated])
next
  show "distinct (cache_keys (the_cache (caches (cleanupOldCache parse now w)) DATA_CACHE_NAME))"
    by (rule cleanup_keys_distinct [OF assms])
qed

theorem cleanup_keeps_undated_witness:
  "distinct (cache_keys (the_cache (caches w_dated) DATA_CACHE_NAME)) \<and>
   cache_match (the_cache (caches (cleanupOldCache parse_http_date 1700000000000 w_form)) DATA_CACHE_NAME)
     (''form-'' @ show_number 1600000000000 @ ''-'' @ ''x1y2z3a4b'')
     = Some (new_Response (JSON_stringify payloadA) 200 [] []) \<and>
   1700000000000 - 1600000000000 > maxAge \<and>
   distinct (cache_keys (the_cache (caches w_form) DATA_CACHE_NAME)) \<and>
   cache_match (the_cache (caches w_form) DATA_CACHE_NAME) ''form-1600000000000-x1y2z3a4b''
     = Some (new_Response (JSON_stringify payloadA) 200 [] []) \<and>
   headers_get (new_Response (JSON_stringify payloadA) 200 [] []) ''date'' = None \<and>
   cache_match (the_cache (caches (cleanupOldCache parse_http_date 1800000000000 w_form)) DATA_CACHE_NAME)
     ''form-1600000000000-x1y2z3a4b'' = Some (new_Response (JSON_stringify payloadA) 200 [] [])"
proof -
  have cache: "the_cache (caches w_dated) DATA_CACHE_NAME
      = [(''/api/old'', api_old), (''/api/recent'', api_recent)]"
    by (simp add: w_dated_def the_cache_store_in cache_put_def cache_delete_def)
  have keys: "distinct (cache_keys (the_cache (caches w_dated) DATA_CACHE_NAME))"
    by (simp add: cache cache_keys_def)
  have key: "show_number 1600000000000 = ''1600000000000''"
    by (simp add: show_number_def digit_char_def)
  have form_cache: "the_cache (caches w_form) DATA_CACHE_NAME
      = [(''/api/old'', api_old), (''/api/recent'', api_recent),
         (''form-1600000000000-x1y2z3a4b'', new_Response (JSON_stringify payloadA) 200 [] [])]"
    by (simp add: w_form_def cacheFormData_stores the_cache_store_in cache key cache_put_def
        cache_delete_def)
  have form_keys: "distinct (cache_keys (the_cache (caches w_form) DATA_CACHE_NAME))"
    by (simp add: form_cache cache_keys_def)
  have stored: "cache_match (the_cache (caches w_form) DATA_CACHE_NAME) ''form-1600000000000-x1y2z3a4b''
     = Some (new_Response (JSON_stringify payloadA) 200 [] [])"
    by (simp add: form_cache cache_match_def)
  have undated: "headers_get (new_Response (JSON_stringify payloadA) 200 [] []) ''date'' = None"
    by (simp add: headers_get_def new_Response_def)
  have age: "1700000000000 - 1600000000000 > maxAge"
    by (simp add: maxAge_def)
  from cleanup_keeps_undated [OF keys, of parse_http_date 1700000000000 1600000000000 "''x1y2z3a4b''" payloadA]
  have a: "cache_match (the_cache (caches (cleanupOldCache parse_http_date 1700000000000 w_form)) DATA_CACHE_NAME)
     (''form-'' @ show_number 1600000000000 @ ''-'' @ ''x1y2z3a4b'')
     = Some (new_Response (JSON_stringify payloadA) 200 [] [])"
    unfolding w_form_def by blast
  from cleanup_keeps_undated [OF form_keys, of parse_http_date 1800000000000] stored undated
  have b: "cache_match (the_cache (caches (cleanupOldCache parse_http_date 1800000000000 w_form)) DATA_CACHE_NAME)
     ''form-1600000000000-x1y2z3a4b'' = Some (new_Response (JSON_stringify payloadA) 200 [] [])"
    by blast
  from keys a age form_keys stored undated b show ?thesis by blast
qed

end
